theory Spec2Isabelle
  imports Main
begin

section \<open>JavaScript values and containers used by the ingestion code\<close>

text \<open>
  The CSV parser is called with \<^verbatim>\<open>header: true\<close> and without dynamic typing, so every
  field of a parsed row is a string, or \<^verbatim>\<open>undefined\<close> when the row has no such column.
  A field is therefore a \<open>string option\<close>, \<open>None\<close> standing for \<^verbatim>\<open>undefined\<close>.
\<close>

type_synonym jsfield = "string option"

text \<open>String conversion as a template literal or a property key performs it.\<close>

definition js_to_string :: "jsfield \<Rightarrow> string" where
  "js_to_string v = (case v of None \<Rightarrow> ''undefined'' | Some s \<Rightarrow> s)"

text \<open>\<^verbatim>\<open>a || b\<close> on a field: the empty string and \<^verbatim>\<open>undefined\<close> are falsy.\<close>

definition js_or :: "jsfield \<Rightarrow> string \<Rightarrow> string" where
  "js_or v d = (case v of None \<Rightarrow> d | Some s \<Rightarrow> if s = [] then d else s)"

text \<open>
  A JavaScript \<^verbatim>\<open>Map\<close> iterates in insertion order and \<^verbatim>\<open>set\<close> on a key that is
  present replaces the value where it stands. It is modelled as an association list.
\<close>

fun map_get :: "('k \<times> 'v) list \<Rightarrow> 'k \<Rightarrow> 'v option" where
  "map_get [] k = None"
| "map_get ((k', v) # m) k = (if k' = k then Some v else map_get m k)"

definition map_has :: "('k \<times> 'v) list \<Rightarrow> 'k \<Rightarrow> bool" where
  "map_has m k = (map_get m k \<noteq> None)"

fun map_set :: "('k \<times> 'v) list \<Rightarrow> 'k \<Rightarrow> 'v \<Rightarrow> ('k \<times> 'v) list" where
  "map_set [] k v = [(k, v)]"
| "map_set ((k', v') # m) k v = (if k' = k then (k, v) # m else (k', v') # map_set m k v)"

definition map_values :: "('k \<times> 'v) list \<Rightarrow> 'v list" where
  "map_values m = map snd m"

text \<open>The keys of a map that receives the keys \<open>ks\<close> one after the other: first-seen order.\<close>

definition insertKey :: "'k list \<Rightarrow> 'k \<Rightarrow> 'k list" where
  "insertKey ks k = (if k \<in> set ks then ks else ks @ [k])"

definition firstSeen :: "'k list \<Rightarrow> 'k list" where
  "firstSeen ks = foldl insertKey [] ks"

subsection \<open>Plain objects used as dictionaries\<close>

text \<open>
  \<^verbatim>\<open>typeColorMap\<close>, \<^verbatim>\<open>typeColors\<close> and the table of \<^verbatim>\<open>getColorForType\<close> are object
  literals. Reading \<^verbatim>\<open>obj[k]\<close> finds an own property, else a member inherited from
  \<^verbatim>\<open>Object.prototype\<close>, else \<^verbatim>\<open>undefined\<close>. The own properties are kept in creation
  order; all values stored by the code are strings.
\<close>

datatype jsvalue = Undefined | Str string | Inherited string

fun truthy :: "jsvalue \<Rightarrow> bool" where
  "truthy Undefined = False"
| "truthy (Str s) = (s \<noteq> [])"
| "truthy (Inherited k) = True"

definition objectPrototypeKeys :: "string list" where
  "objectPrototypeKeys =
     [''constructor'', ''__defineGetter__'', ''__defineSetter__'', ''hasOwnProperty'',
      ''__lookupGetter__'', ''__lookupSetter__'', ''isPrototypeOf'', ''propertyIsEnumerable'',
      ''toString'', ''valueOf'', ''__proto__'', ''toLocaleString'']"

type_synonym jsobject = "(string \<times> string) list"

definition obj_get :: "jsobject \<Rightarrow> string \<Rightarrow> jsvalue" where
  "obj_get obj k =
     (case map_get obj k of
        Some v \<Rightarrow> Str v
      | None \<Rightarrow> if k \<in> set objectPrototypeKeys then Inherited k else Undefined)"

text \<open>Assigning a string to \<^verbatim>\<open>obj['__proto__']\<close> runs the inherited setter, which ignores it.\<close>

definition obj_set :: "jsobject \<Rightarrow> string \<Rightarrow> string \<Rightarrow> jsobject" where
  "obj_set obj k v = (if k = ''__proto__'' then obj else map_set obj k v)"

text \<open>
  \<^verbatim>\<open>Object.keys\<close>, \<^verbatim>\<open>Object.entries\<close> and \<^verbatim>\<open>for ... in\<close> list the own properties whose
  name is an array index (a canonical decimal numeral below \<open>2^32 - 1\<close>) first, in ascending
  numeric order, and the other names after them in creation order.
\<close>

definition decimalValue :: "string \<Rightarrow> nat" where
  "decimalValue s = foldl (\<lambda>a c. 10 * a + (of_char c - 48)) 0 s"

definition isArrayIndex :: "string \<Rightarrow> bool" where
  "isArrayIndex s =
     (s \<noteq> [] \<and> list_all (\<lambda>c. c \<in> set ''0123456789'') s
      \<and> (s = ''0'' \<or> hd s \<noteq> CHR ''0'') \<and> decimalValue s < 4294967295)"

definition obj_entries :: "jsobject \<Rightarrow> (string \<times> string) list" where
  "obj_entries obj =
     sort_key (\<lambda>p. decimalValue (fst p)) (filter (\<lambda>p. isArrayIndex (fst p)) obj)
     @ filter (\<lambda>p. \<not> isArrayIndex (fst p)) obj"


section \<open>Parsed rows\<close>

record NodeData =
  n_id :: jsfield
  n_type :: jsfield
  n_label :: jsfield

record EdgeData =
  source :: jsfield
  target :: jsfield
  edgeType :: jsfield

section \<open>The graph and the page\<close>

text \<open>
  The graph of the rendering library, as far as the ingestion code observes it: node and
  edge objects with identity, a tag, a fill colour and labels. A node's identity is its
  \<open>handle\<close>; an edge refers to its end nodes by handle. Positions, shapes and strokes
  (some of them drawn with \<^verbatim>\<open>Math.random\<close>) belong to rendering and are left out.
\<close>

record 'n gnode =
  handle :: nat
  tag :: 'n
  fill :: jsvalue
  nlabels :: "string list"

record 'e gedge =
  src :: nat
  tgt :: nat
  etag :: 'e
  elabels :: "string list"

record ('n, 'e) igraph =
  nodes :: "'n gnode list"
  edges :: "'e gedge list"
  nextHandle :: nat

definition clear :: "('n, 'e) igraph \<Rightarrow> ('n, 'e) igraph" where
  "clear g = \<lparr>nodes = [], edges = [], nextHandle = 0\<rparr>"

definition createNode ::
  "('n, 'e) igraph \<Rightarrow> 'n \<Rightarrow> jsvalue \<Rightarrow> string list \<Rightarrow> ('n, 'e) igraph" where
  "createNode g t f ls =
     g\<lparr>nodes := nodes g @ [\<lparr>handle = nextHandle g, tag = t, fill = f, nlabels = ls\<rparr>],
       nextHandle := Suc (nextHandle g)\<rparr>"

definition createEdge ::
  "('n, 'e) igraph \<Rightarrow> nat \<Rightarrow> nat \<Rightarrow> 'e \<Rightarrow> string list \<Rightarrow> ('n, 'e) igraph" where
  "createEdge g s t e ls = g\<lparr>edges := edges g @ [\<lparr>src = s, tgt = t, etag = e, elabels = ls\<rparr>]\<rparr>"

text \<open>\<^verbatim>\<open>graph.degree(node)\<close>: the edges leaving the node plus the edges entering it.\<close>

definition degree :: "('n, 'e) igraph \<Rightarrow> nat \<Rightarrow> nat" where
  "degree g h =
     length (filter (\<lambda>e. src e = h) (edges g)) + length (filter (\<lambda>e. tgt e = h) (edges g))"

text \<open>\<^verbatim>\<open>graph.remove(node)\<close> removes the node and the edges at it.\<close>

definition removeNode :: "('n, 'e) igraph \<Rightarrow> nat \<Rightarrow> ('n, 'e) igraph" where
  "removeNode g h =
     g\<lparr>nodes := filter (\<lambda>n. handle n \<noteq> h) (nodes g),
       edges := filter (\<lambda>e. src e \<noteq> h \<and> tgt e \<noteq> h) (edges g)\<rparr>"

definition setStyle :: "('n, 'e) igraph \<Rightarrow> nat \<Rightarrow> jsvalue \<Rightarrow> ('n, 'e) igraph" where
  "setStyle g h f = g\<lparr>nodes := map (\<lambda>n. if handle n = h then n\<lparr>fill := f\<rparr> else n) (nodes g)\<rparr>"

text \<open>
  The page: the elements that \<^verbatim>\<open>getElementById\<close> can find, in document order. Of a legend
  element the model keeps its rows, each a type name with the colour of its box.
\<close>

record element =
  elem_id :: string
  items :: "(string \<times> string) list"

text \<open>\<^verbatim>\<open>getElementById(i)\<close> followed by \<^verbatim>\<open>remove()\<close>: the first element with the id goes.\<close>

fun removeById :: "string \<Rightarrow> element list \<Rightarrow> element list" where
  "removeById i [] = []"
| "removeById i (e # es) = (if elem_id e = i then es else e # removeById i es)"

text \<open>Calls into the view, the clustering and the layout engine, in the order made.\<close>

datatype event = ProgressValue nat | FitGraphBounds | ClusteringRun | LayoutRun | ProjectionSet

record ('n, 'e) world =
  graph :: "('n, 'e) igraph"
  document :: "element list"
  events :: "event list"

section \<open>Colour assignment by palette\<close>

text \<open>
  The ten colours named \<^verbatim>\<open>colors\<close> in \<^verbatim>\<open>updateGraph\<close> and \<^verbatim>\<open>getTypeColorMap\<close> and
  \<^verbatim>\<open>clusterColors\<close> in \<^verbatim>\<open>applyClustering\<close>.
\<close>

definition colors :: "string list" where
  "colors = [''#ff6f61'', ''#6b5b95'', ''#88b04b'', ''#f7cac9'', ''#92a8d1'', ''#955251'',
             ''#b565a7'', ''#009b77'', ''#dd4124'', ''#d65076'']"

text \<open>
  The statement shared by \<^verbatim>\<open>updateGraph\<close> (part 000, lines 145-148) and
  \<^verbatim>\<open>getTypeColorMap\<close> (part 001, lines 476-479):
  \<^verbatim>\<open>if (!typeColorMap[node.type]) { typeColorMap[node.type] = colors[colorIndex % colors.length]; colorIndex++ }\<close>
\<close>

definition assignTypeColor :: "jsobject \<times> nat \<Rightarrow> jsfield \<Rightarrow> jsobject \<times> nat" where
  "assignTypeColor st ty =
     (let typeColorMap = fst st; colorIndex = snd st; k = js_to_string ty in
      if \<not> truthy (obj_get typeColorMap k)
      then (obj_set typeColorMap k (colors ! (colorIndex mod length colors)), colorIndex + 1)
      else (typeColorMap, colorIndex))"

section \<open>Variant A: updateGraph (first document of part 000)\<close>

subsection \<open>Node deduplication (lines 136-142)\<close>

definition uniqueNodes_A :: "NodeData list \<Rightarrow> (jsfield \<times> NodeData) list" where
  "uniqueNodes_A nodesData =
     foldl (\<lambda>m node. if \<not> map_has m (n_id node) then map_set m (n_id node) node else m)
       [] nodesData"

subsection \<open>Edge consolidation (lines 158-167)\<close>

record ConsolidatedEdge =
  c_source :: jsfield
  c_target :: jsfield
  c_count :: nat
  c_edgeType :: jsfield

definition edgeKey :: "EdgeData \<Rightarrow> string" where
  "edgeKey edge = js_to_string (source edge) @ ''-'' @ js_to_string (target edge)"

definition newEntry :: "EdgeData \<Rightarrow> ConsolidatedEdge" where
  "newEntry edge =
     \<lparr>c_source = source edge, c_target = target edge, c_count = 1, c_edgeType = edgeType edge\<rparr>"

definition consolidateStep ::
  "(string \<times> ConsolidatedEdge) list \<Rightarrow> EdgeData \<Rightarrow> (string \<times> ConsolidatedEdge) list" where
  "consolidateStep m edge =
     (if map_has m (edgeKey edge)
      then (case map_get m (edgeKey edge) of
              Some entry \<Rightarrow> map_set m (edgeKey edge) (entry\<lparr>c_count := c_count entry + 1\<rparr>)
            | None \<Rightarrow> m)
      else map_set m (edgeKey edge) (newEntry edge))"

definition consolidatedEdges :: "EdgeData list \<Rightarrow> (string \<times> ConsolidatedEdge) list" where
  "consolidatedEdges edgesData = foldl consolidateStep [] edgesData"

type_synonym graph_A = "(NodeData, ConsolidatedEdge) igraph"

subsection \<open>Node creation with colours (lines 144-156)\<close>

text \<open>
  The node's fill is built from the value read back from \<^verbatim>\<open>typeColorMap\<close>, whatever it is;
  what the library's \<^verbatim>\<open>SolidColorFill\<close> makes of a value that is no colour string is not
  followed further.
\<close>

definition nodeStep_A :: "(jsobject \<times> nat) \<times> graph_A \<Rightarrow> NodeData \<Rightarrow> (jsobject \<times> nat) \<times> graph_A" where
  "nodeStep_A st node =
     (let st' = assignTypeColor (fst st) (n_type node) in
      (st', createNode (snd st) node (obj_get (fst st') (js_to_string (n_type node)))
              [js_or (n_label node) ''No Label'']))"

subsection \<open>Edge attachment (lines 169-185)\<close>

definition findNodeById :: "graph_A \<Rightarrow> jsfield \<Rightarrow> NodeData gnode option" where
  "findNodeById g i = find (\<lambda>node. n_id (tag node) = i) (nodes g)"

definition attachEdge_A :: "graph_A \<Rightarrow> ConsolidatedEdge \<Rightarrow> graph_A" where
  "attachEdge_A g edge =
     (case (findNodeById g (c_source edge), findNodeById g (c_target edge)) of
        (Some sourceNode, Some targetNode) \<Rightarrow>
          createEdge g (handle sourceNode) (handle targetNode) edge
            [js_or (c_edgeType edge) ''No Type'']
      | _ \<Rightarrow> g)"

subsection \<open>Legend from the graph (lines 267-322)\<close>

text \<open>
  The colour text shown in the legend is \<^verbatim>\<open>nodeStyle.fill.color.toString()\<close>, computed by the
  rendering library from the fill: the parameter \<open>colorToString\<close>. Every node of the graph
  was created by \<^verbatim>\<open>updateGraph\<close> with a \<^verbatim>\<open>SolidColorFill\<close>.
\<close>

definition legendStep_A :: "(jsvalue \<Rightarrow> string) \<Rightarrow> jsobject \<Rightarrow> NodeData gnode \<Rightarrow> jsobject" where
  "legendStep_A colorToString typeColorMap node =
     (case n_type (tag node) of
        None \<Rightarrow> typeColorMap
      | Some nodeType \<Rightarrow>
          if nodeType \<noteq> [] \<and> \<not> truthy (obj_get typeColorMap nodeType)
          then obj_set typeColorMap nodeType (colorToString (fill node))
          else typeColorMap)"

definition legendId :: string where
  "legendId = ''node-type-legend''"

definition createLegend_A :: "(jsvalue \<Rightarrow> string) \<Rightarrow> element list \<Rightarrow> graph_A \<Rightarrow> element list" where
  "createLegend_A colorToString doc g =
     removeById legendId doc
     @ [\<lparr>elem_id = legendId,
         items = obj_entries (foldl (legendStep_A colorToString) [] (nodes g))\<rparr>]"

subsection \<open>updateGraph (lines 128-189)\<close>

definition updateGraph ::
  "(jsvalue \<Rightarrow> string) \<Rightarrow> (NodeData, ConsolidatedEdge) world \<Rightarrow> NodeData list \<Rightarrow> EdgeData list
   \<Rightarrow> (NodeData, ConsolidatedEdge) world" where
  "updateGraph colorToString w nodesData edgesData =
     (let g0 = clear (graph w);
          g1 = snd (foldl nodeStep_A (([], 0), g0) (map_values (uniqueNodes_A nodesData)));
          g2 = foldl attachEdge_A g1 (map_values (consolidatedEdges edgesData))
      in \<lparr>graph = g2,
          document = createLegend_A colorToString (document w) g2,
          events = events w @ [FitGraphBounds]\<rparr>)"

section \<open>Variant B: loadAndProcessCSVFiles (second document of part 000)\<close>

text \<open>Line 465: \<^verbatim>\<open>Array.from(new Map(nodes.map(node => [node.id, node])).values())\<close>.\<close>

definition uniqueNodesMap :: "NodeData list \<Rightarrow> (jsfield \<times> NodeData) list" where
  "uniqueNodesMap nodesData = foldl (\<lambda>m node. map_set m (n_id node) node) [] nodesData"

definition uniqueNodes_B :: "NodeData list \<Rightarrow> NodeData list" where
  "uniqueNodes_B nodesData = map_values (uniqueNodesMap nodesData)"






section \<open>Variant C: loadGraphInChunks (part 001)\<close>

type_synonym graph_C = "(jsfield, EdgeData) igraph"

subsection \<open>getColorForType (lines 217-224)\<close>

definition getColorForType :: "jsfield \<Rightarrow> jsvalue" where
  "getColorForType ty =
     (let v = obj_get [(''Type1'', ''red''), (''Type2'', ''blue''), (''Type3'', ''green'')]
                (js_to_string ty)
      in if truthy v then v else Str ''gray'')"

subsection \<open>updateGraphChunk (lines 182-215)\<close>

text \<open>
  \<^verbatim>\<open>GraphBuilder\<close> is code of the rendering library. It is a parameter of the model: a
  function from the tag provider, the label binding, the colour that the node-created
  listener sets, the graph, the nodes source and the edges source to the graph after
  \<^verbatim>\<open>buildGraph()\<close>.
\<close>

type_synonym graphBuilder =
  "(NodeData \<Rightarrow> jsfield) \<Rightarrow> (NodeData \<Rightarrow> string) \<Rightarrow> (NodeData \<Rightarrow> jsvalue)
   \<Rightarrow> graph_C \<Rightarrow> NodeData list \<Rightarrow> EdgeData list \<Rightarrow> graph_C"

definition updateGraphChunk ::
  "graphBuilder \<Rightarrow> bool \<Rightarrow> graph_C \<Rightarrow> NodeData list \<Rightarrow> EdgeData list \<Rightarrow> graph_C" where
  "updateGraphChunk buildGraph nodeLabelsVisible g nodesData edgesData =
     buildGraph n_type
       (\<lambda>d. if nodeLabelsVisible then js_or (n_label d) [] else [])
       (\<lambda>d. getColorForType (n_type d))
       g nodesData edgesData"

subsection \<open>getTypeColorMap and createLegend (lines 424-483)\<close>

definition getTypeColorMap :: "NodeData list \<Rightarrow> jsobject" where
  "getTypeColorMap nodesData =
     fst (foldl (\<lambda>st node. assignTypeColor st (n_type node)) ([], 0) nodesData)"

definition createLegend_C :: "element list \<Rightarrow> NodeData list \<Rightarrow> element list" where
  "createLegend_C doc nodesData =
     removeById legendId doc
     @ [\<lparr>elem_id = legendId, items = obj_entries (getTypeColorMap nodesData)\<rparr>]"

subsection \<open>applyClustering (lines 226-260)\<close>

text \<open>
  The result of \<^verbatim>\<open>EdgeBetweennessClustering\<close> is a parameter: \<open>ids\<close> gives a node's cluster
  id, or \<open>None\<close> for \<^verbatim>\<open>null\<close>. The keys of \<^verbatim>\<open>clusters\<close> are cluster ids written as
  decimals, which \<^verbatim>\<open>for ... in\<close> visits in ascending order.
\<close>

definition clusterKeys :: "(nat \<Rightarrow> nat option) \<Rightarrow> ('n, 'e) igraph \<Rightarrow> nat list" where
  "clusterKeys ids g = sort (remdups (List.map_filter (\<lambda>n. ids (handle n)) (nodes g)))"

definition styleCluster ::
  "(nat \<Rightarrow> nat option) \<Rightarrow> ('n, 'e) igraph \<Rightarrow> ('n, 'e) igraph \<times> nat \<Rightarrow> nat
   \<Rightarrow> ('n, 'e) igraph \<times> nat" where
  "styleCluster ids g st clusterKey =
     (let clusterColor = colors ! (snd st mod length colors) in
      (foldl (\<lambda>g' node. setStyle g' (handle node) (Str clusterColor)) (fst st)
         (filter (\<lambda>n. ids (handle n) = Some clusterKey) (nodes g)),
       snd st + 1))"

definition styleClusters :: "(nat \<Rightarrow> nat option) \<Rightarrow> ('n, 'e) igraph \<Rightarrow> ('n, 'e) igraph" where
  "styleClusters ids g = fst (foldl (styleCluster ids g) (g, 0) (clusterKeys ids g))"

text \<open>Lines 256-257: the nodes of degree 0 are collected first, then removed one by one.\<close>

definition pruneIsolated :: "('n, 'e) igraph \<Rightarrow> ('n, 'e) igraph" where
  "pruneIsolated g =
     foldl (\<lambda>g' node. removeNode g' (handle node)) g
       (filter (\<lambda>node. degree g (handle node) = 0) (nodes g))"

definition applyClustering ::
  "(('n, 'e) igraph \<Rightarrow> nat \<Rightarrow> nat option) \<Rightarrow> ('n, 'e) world \<Rightarrow> ('n, 'e) world" where
  "applyClustering clustering w =
     w\<lparr>graph := pruneIsolated (styleClusters (clustering (graph w)) (graph w)),
       events := events w @ [ClusteringRun, LayoutRun, ProjectionSet]\<rparr>"

subsection \<open>loadGraphInChunks (lines 153-180)\<close>

text \<open>\<^verbatim>\<open>Math.ceil(nodesData.length / chunkSize)\<close> for a positive chunk size.\<close>

definition totalChunks :: "nat \<Rightarrow> nat \<Rightarrow> nat" where
  "totalChunks n chunkSize = (n + chunkSize - 1) div chunkSize"

definition edgeTouches :: "NodeData list \<Rightarrow> EdgeData \<Rightarrow> bool" where
  "edgeTouches nodeChunk edge =
     list_ex (\<lambda>node. n_id node = source edge \<or> n_id node = target edge) nodeChunk"

definition chunkStep ::
  "graphBuilder \<Rightarrow> bool \<Rightarrow> nat \<Rightarrow> NodeData list \<Rightarrow> EdgeData list
   \<Rightarrow> (jsfield \<times> NodeData) list \<times> (jsfield, EdgeData) world \<Rightarrow> nat
   \<Rightarrow> (jsfield \<times> NodeData) list \<times> (jsfield, EdgeData) world" where
  "chunkStep buildGraph nodeLabelsVisible chunkSize nodesData edgesData st i =
     (let nodeChunk = take chunkSize (drop (i * chunkSize) nodesData);
          uniqueNodesMap' = foldl (\<lambda>m node. map_set m (n_id node) node) (fst st) nodeChunk;
          edgeChunk = filter (edgeTouches nodeChunk) edgesData;
          w = snd st
      in (uniqueNodesMap',
          w\<lparr>graph := updateGraphChunk buildGraph nodeLabelsVisible (graph w)
                        (map_values uniqueNodesMap') edgeChunk,
            events := events w @ [ProgressValue (i + 1)]\<rparr>))"

definition chunkLoop ::
  "graphBuilder \<Rightarrow> bool \<Rightarrow> nat \<Rightarrow> NodeData list \<Rightarrow> EdgeData list \<Rightarrow> (jsfield, EdgeData) world
   \<Rightarrow> (jsfield \<times> NodeData) list \<times> (jsfield, EdgeData) world" where
  "chunkLoop buildGraph nodeLabelsVisible chunkSize nodesData edgesData w =
     foldl (chunkStep buildGraph nodeLabelsVisible chunkSize nodesData edgesData) ([], w)
       [0..<totalChunks (length nodesData) chunkSize]"

text \<open>Lines 176-179: what follows the loop.\<close>

definition finishLoad ::
  "(graph_C \<Rightarrow> nat \<Rightarrow> nat option) \<Rightarrow> NodeData list \<Rightarrow> (jsfield, EdgeData) world
   \<Rightarrow> (jsfield, EdgeData) world" where
  "finishLoad clustering uniqueNodes w =
     (let w1 = w\<lparr>events := events w @ [FitGraphBounds]\<rparr>;
          w2 = applyClustering clustering w1
      in w2\<lparr>document := createLegend_C (document w2) uniqueNodes\<rparr>)"

text \<open>
  The function with its chunk size as a parameter. With chunk size 0 and a non-empty node
  list \<^verbatim>\<open>totalChunks\<close> is \<^verbatim>\<open>Infinity\<close> and the loop never ends: the result \<open>None\<close>. With
  chunk size 0 and no node it is \<^verbatim>\<open>NaN\<close> and the loop body never runs, as for
  \<open>totalChunks 0 0 = 0\<close>.
\<close>

definition loadGraphInChunks_sized ::
  "nat \<Rightarrow> graphBuilder \<Rightarrow> bool \<Rightarrow> (graph_C \<Rightarrow> nat \<Rightarrow> nat option) \<Rightarrow> (jsfield, EdgeData) world
   \<Rightarrow> NodeData list \<Rightarrow> EdgeData list \<Rightarrow> (jsfield, EdgeData) world option" where
  "loadGraphInChunks_sized chunkSize buildGraph nodeLabelsVisible clustering w nodesData edgesData =
     (if chunkSize = 0 \<and> nodesData \<noteq> [] then None
      else
        (let st = chunkLoop buildGraph nodeLabelsVisible chunkSize nodesData edgesData w
         in Some (finishLoad clustering (map_values (fst st)) (snd st))))"

text \<open>Line 154: \<^verbatim>\<open>const chunkSize = 100\<close>.\<close>

definition loadGraphInChunks ::
  "graphBuilder \<Rightarrow> bool \<Rightarrow> (graph_C \<Rightarrow> nat \<Rightarrow> nat option) \<Rightarrow> (jsfield, EdgeData) world
   \<Rightarrow> NodeData list \<Rightarrow> EdgeData list \<Rightarrow> (jsfield, EdgeData) world option" where
  "loadGraphInChunks = loadGraphInChunks_sized 100"

subsection \<open>An instance of the graph builder\<close>

text \<open>
  A builder as the library describes \<^verbatim>\<open>GraphBuilder.buildGraph\<close>: it creates a node for
  every item of its nodes source, remembers the node under the item's id, and creates an
  edge for every item of its edges source whose source id and target id both name a node
  it created; other edge items are skipped. A new builder knows none of the nodes that an
  earlier builder put into the graph. Whether \<^verbatim>\<open>buildGraph\<close> empties the graph first is the
  flag \<open>clearsFirst\<close>. It serves as an instance of the parameter \<open>buildGraph\<close>.
\<close>

definition builderNode ::
  "(NodeData \<Rightarrow> jsfield) \<Rightarrow> (NodeData \<Rightarrow> string) \<Rightarrow> (NodeData \<Rightarrow> jsvalue)
   \<Rightarrow> (jsfield \<times> nat) list \<times> graph_C \<Rightarrow> NodeData \<Rightarrow> (jsfield \<times> nat) list \<times> graph_C" where
  "builderNode tagOf labelOf fillOf st d =
     (map_set (fst st) (n_id d) (nextHandle (snd st)),
      createNode (snd st) (tagOf d) (fillOf d) [labelOf d])"

definition builderEdge :: "(jsfield \<times> nat) list \<Rightarrow> graph_C \<Rightarrow> EdgeData \<Rightarrow> graph_C" where
  "builderEdge idMap g e =
     (case (map_get idMap (source e), map_get idMap (target e)) of
        (Some s, Some t) \<Rightarrow> createEdge g s t e []
      | _ \<Rightarrow> g)"

definition modelBuilder :: "bool \<Rightarrow> graphBuilder" where
  "modelBuilder clearsFirst tagOf labelOf fillOf g nodesData edgesData =
     (let st = foldl (builderNode tagOf labelOf fillOf)
                 ([], if clearsFirst then clear g else g) nodesData
      in foldl (builderEdge (fst st)) (snd st) edgesData)"

section \<open>Notions used in the statements\<close>

text \<open>The property key under which a row's type is looked up.\<close>

definition typeKey :: "NodeData \<Rightarrow> string" where
  "typeKey node = js_to_string (n_type node)"

text \<open>The table that gives the \<open>N\<close>-th key the palette colour \<open>N mod\<close> palette size.\<close>

definition paletteTable :: "string list \<Rightarrow> string list \<Rightarrow> jsobject" where
  "paletteTable pal ks = zip ks (map (\<lambda>N. pal ! (N mod length pal)) [0..<length ks])"

text \<open>An object all of whose stored values are non-empty strings, as colours are.\<close>

definition storesColors :: "jsobject \<Rightarrow> bool" where
  "storesColors m = list_all (\<lambda>p. snd p \<noteq> []) m"

text \<open>An edge both of whose end ids are ids of nodes of the graph.\<close>

definition attaches :: "graph_A \<Rightarrow> ConsolidatedEdge \<Rightarrow> bool" where
  "attaches g edge \<longleftrightarrow> c_source edge \<in> set (map (\<lambda>n. n_id (tag n)) (nodes g))
      \<and> c_target edge \<in> set (map (\<lambda>n. n_id (tag n)) (nodes g))"

section \<open>Facts about maps\<close>

lemma map_get_map_set:
  "map_get (map_set m k v) k' = (if k' = k then Some v else map_get m k')"
  by (induction m) auto

lemma map_get_None_iff: "map_get m k = None \<longleftrightarrow> k \<notin> set (map fst m)"
  by (induction m) force+

lemma keys_map_set: "map fst (map_set m k v) = insertKey (map fst m) k"
  by (induction m) (force simp: insertKey_def split: if_splits)+

lemma set_foldl_insertKey: "set (foldl insertKey acc ks) = set acc \<union> set ks"
  by (induction ks arbitrary: acc) (auto simp: insertKey_def)

lemma distinct_foldl_insertKey: "distinct acc \<Longrightarrow> distinct (foldl insertKey acc ks)"
  by (induction ks arbitrary: acc) (auto simp: insertKey_def)

lemma set_firstSeen: "set (firstSeen ks) = set ks"
  by (simp add: firstSeen_def set_foldl_insertKey)

lemma distinct_firstSeen: "distinct (firstSeen ks)"
  by (simp add: firstSeen_def distinct_foldl_insertKey)

section \<open>Edge consolidation: counters, first-occurrence fields and keys\<close>

lemma keys_consolidateStep:
  "map fst (consolidateStep m e) = insertKey (map fst m) (edgeKey e)"
  by (auto simp: consolidateStep_def map_has_def keys_map_set insertKey_def map_get_None_iff
      split: option.splits)

lemma keys_consolidate_fold:
  "map fst (foldl consolidateStep m es) = foldl insertKey (map fst m) (map edgeKey es)"
  by (induction es arbitrary: m) (simp_all add: keys_consolidateStep)

lemma get_consolidateStep:
  "map_get (consolidateStep m e) k =
     (if edgeKey e = k
      then (case map_get m k of None \<Rightarrow> Some (newEntry e)
            | Some entry \<Rightarrow> Some (entry\<lparr>c_count := c_count entry + 1\<rparr>))
      else map_get m k)"
  by (auto simp: consolidateStep_def map_has_def map_get_map_set split: option.splits)

lemma get_consolidate_fold:
  "map_get (foldl consolidateStep m es) k =
     (case filter (\<lambda>e. edgeKey e = k) es of
        [] \<Rightarrow> map_get m k
      | e # rest \<Rightarrow>
          (case map_get m k of
             None \<Rightarrow> Some ((newEntry e)\<lparr>c_count := Suc (length rest)\<rparr>)
           | Some entry \<Rightarrow> Some (entry\<lparr>c_count := c_count entry + Suc (length rest)\<rparr>)))"
proof (induction es arbitrary: m)
  case Nil
  show ?case by simp
next
  case (Cons a es)
  show ?case
    by (simp add: Cons.IH get_consolidateStep newEntry_def split: list.splits option.splits)
qed

text \<open>
  Claim C3, as the code has it. Consolidation in \<^verbatim>\<open>updateGraph\<close> is keyed by the string
  \<open>source @ ''-'' @ target\<close>, not by the pair. The entry of a key string exists exactly
  when some row has that key string; its counter is 1 for the first such row plus 1 for
  every later one, and its source, target and edgeType are those of the first such row.
  Where every row with the key string of a row \<open>e\<close> also has the source and target of
  \<open>e\<close>, the entry counts exactly the rows with that source and target. Three identical
  rows with source "1" and target "2" give a single entry with counter 3.
\<close>

theorem consolidatedEdges_counter_per_key_string:
  "map_get (consolidatedEdges es) k =
     (case filter (\<lambda>e. edgeKey e = k) es of
        [] \<Rightarrow> None
      | e # rest \<Rightarrow>
          Some \<lparr>c_source = source e, c_target = target e, c_count = Suc (length rest),
                c_edgeType = edgeType e\<rparr>)
   \<and> ((\<forall>e' \<in> set es. edgeKey e' = edgeKey e \<longrightarrow> source e' = source e \<and> target e' = target e)
        \<longrightarrow> map_get (consolidatedEdges es) (edgeKey e) =
          (case filter (\<lambda>e'. source e' = source e \<and> target e' = target e) es of
             [] \<Rightarrow> None
           | f # rest \<Rightarrow>
               Some \<lparr>c_source = source f, c_target = target f, c_count = Suc (length rest),
                     c_edgeType = edgeType f\<rparr>))
   \<and> consolidatedEdges
       [\<lparr>source = Some ''1'', target = Some ''2'', edgeType = t\<rparr>,
        \<lparr>source = Some ''1'', target = Some ''2'', edgeType = t\<rparr>,
        \<lparr>source = Some ''1'', target = Some ''2'', edgeType = t\<rparr>]
     = [(''1-2'', \<lparr>c_source = Some ''1'', c_target = Some ''2'', c_count = 3, c_edgeType = t\<rparr>)]"
proof -
  have key: "map_get (consolidatedEdges es) k =
     (case filter (\<lambda>e. edgeKey e = k) es of
        [] \<Rightarrow> None
      | e # rest \<Rightarrow>
          Some \<lparr>c_source = source e, c_target = target e, c_count = Suc (length rest),
                c_edgeType = edgeType e\<rparr>)" for k
    unfolding consolidatedEdges_def
    by (simp add: get_consolidate_fold newEntry_def split: list.splits)
  have pair: "map_get (consolidatedEdges es) (edgeKey e) =
          (case filter (\<lambda>e'. source e' = source e \<and> target e' = target e) es of
             [] \<Rightarrow> None
           | f # rest \<Rightarrow>
               Some \<lparr>c_source = source f, c_target = target f, c_count = Suc (length rest),
                     c_edgeType = edgeType f\<rparr>)"
    if h: "\<forall>e' \<in> set es. edgeKey e' = edgeKey e \<longrightarrow> source e' = source e \<and> target e' = target e"
  proof -
    have eq: "(edgeKey e' = edgeKey e) = (source e' = source e \<and> target e' = target e)"
      if "e' \<in> set es" for e'
    proof
      assume k: "edgeKey e' = edgeKey e"
      have "edgeKey e' = edgeKey e \<longrightarrow> source e' = source e \<and> target e' = target e"
        using h that by (rule bspec)
      then show "source e' = source e \<and> target e' = target e"
        using k by (rule mp)
    next
      assume "source e' = source e \<and> target e' = target e"
      then show "edgeKey e' = edgeKey e" by (simp add: edgeKey_def)
    qed
    have "filter (\<lambda>e'. edgeKey e' = edgeKey e) es
            = filter (\<lambda>e'. source e' = source e \<and> target e' = target e) es"
      by (rule filter_cong[OF refl]) (rule eq)
    then show ?thesis by (simp only: key)
  qed
  have inst: "consolidatedEdges
       [\<lparr>source = Some ''1'', target = Some ''2'', edgeType = t\<rparr>,
        \<lparr>source = Some ''1'', target = Some ''2'', edgeType = t\<rparr>,
        \<lparr>source = Some ''1'', target = Some ''2'', edgeType = t\<rparr>]
     = [(''1-2'', \<lparr>c_source = Some ''1'', c_target = Some ''2'', c_count = 3, c_edgeType = t\<rparr>)]"
    by (simp add: consolidatedEdges_def consolidateStep_def map_has_def edgeKey_def
        js_to_string_def newEntry_def)
  show ?thesis
  proof (intro conjI impI)
    show "map_get (consolidatedEdges es) k =
     (case filter (\<lambda>e. edgeKey e = k) es of
        [] \<Rightarrow> None
      | e # rest \<Rightarrow>
          Some \<lparr>c_source = source e, c_target = target e, c_count = Suc (length rest),
                c_edgeType = edgeType e\<rparr>)"
      by (rule key)
  next
    assume "\<forall>e' \<in> set es. edgeKey e' = edgeKey e \<longrightarrow> source e' = source e \<and> target e' = target e"
    then show "map_get (consolidatedEdges es) (edgeKey e) =
          (case filter (\<lambda>e'. source e' = source e \<and> target e' = target e) es of
             [] \<Rightarrow> None
           | f # rest \<Rightarrow>
               Some \<lparr>c_source = source f, c_target = target f, c_count = Suc (length rest),
                     c_edgeType = edgeType f\<rparr>)"
      by (rule pair)
  next
    show "consolidatedEdges
       [\<lparr>source = Some ''1'', target = Some ''2'', edgeType = t\<rparr>,
        \<lparr>source = Some ''1'', target = Some ''2'', edgeType = t\<rparr>,
        \<lparr>source = Some ''1'', target = Some ''2'', edgeType = t\<rparr>]
     = [(''1-2'', \<lparr>c_source = Some ''1'', c_target = Some ''2'', c_count = 3, c_edgeType = t\<rparr>)]"
      by (rule inst)
  qed
qed

theorem consolidatedEdges_counter_per_key_string_witness:
  "list_all (\<lambda>e'. edgeKey e' = edgeKey \<lparr>source = Some ''1'', target = Some ''2'', edgeType = Some ''y''\<rparr>
                 \<longrightarrow> source e' = Some ''1'' \<and> target e' = Some ''2'')
     [\<lparr>source = Some ''1'', target = Some ''2'', edgeType = Some ''x''\<rparr>,
      \<lparr>source = Some ''3'', target = Some ''2'', edgeType = None\<rparr>,
      \<lparr>source = Some ''1'', target = Some ''2'', edgeType = Some ''y''\<rparr>]
   \<and> map_get (consolidatedEdges
        [\<lparr>source = Some ''1'', target = Some ''2'', edgeType = Some ''x''\<rparr>,
         \<lparr>source = Some ''3'', target = Some ''2'', edgeType = None\<rparr>,
         \<lparr>source = Some ''1'', target = Some ''2'', edgeType = Some ''y''\<rparr>])
        (edgeKey \<lparr>source = Some ''1'', target = Some ''2'', edgeType = Some ''y''\<rparr>)
     = Some \<lparr>c_source = Some ''1'', c_target = Some ''2'', c_count = 2, c_edgeType = Some ''x''\<rparr>"
proof -
  let ?es = "[\<lparr>source = Some ''1'', target = Some ''2'', edgeType = Some ''x''\<rparr>,
         \<lparr>source = Some ''3'', target = Some ''2'', edgeType = None\<rparr>,
         \<lparr>source = Some ''1'', target = Some ''2'', edgeType = Some ''y''\<rparr>]"
  let ?e = "\<lparr>source = Some ''1'', target = Some ''2'', edgeType = Some ''y''\<rparr>"
  have l: "list_all (\<lambda>e'. edgeKey e' = edgeKey ?e \<longrightarrow> source e' = Some ''1'' \<and> target e' = Some ''2'') ?es"
    by (simp add: edgeKey_def js_to_string_def)
  have h: "\<forall>e' \<in> set ?es. edgeKey e' = edgeKey ?e \<longrightarrow> source e' = source ?e \<and> target e' = target ?e"
    using l by (simp only: list_all_iff EdgeData.simps)
  have r: "map_get (consolidatedEdges ?es) (edgeKey ?e) =
          (case filter (\<lambda>e'. source e' = source ?e \<and> target e' = target ?e) ?es of
             [] \<Rightarrow> None
           | f # rest \<Rightarrow>
               Some \<lparr>c_source = source f, c_target = target f, c_count = Suc (length rest),
                     c_edgeType = edgeType f\<rparr>)"
    using consolidatedEdges_counter_per_key_string[where es = ?es and e = ?e,
        THEN conjunct2, THEN conjunct1, THEN mp, OF h] .
  have f: "filter (\<lambda>e'. source e' = source ?e \<and> target e' = target ?e) ?es
             = [\<lparr>source = Some ''1'', target = Some ''2'', edgeType = Some ''x''\<rparr>,
                \<lparr>source = Some ''1'', target = Some ''2'', edgeType = Some ''y''\<rparr>]"
    by simp
  have "map_get (consolidatedEdges ?es) (edgeKey ?e)
          = Some \<lparr>c_source = Some ''1'', c_target = Some ''2'', c_count = 2, c_edgeType = Some ''x''\<rparr>"
    unfolding r f by simp
  with l show ?thesis by (rule conjI)
qed

text \<open>
  Claim C3 as stated, with the pair as key, fails. The rows (a, b-c) and (a-b, c) are two
  different pairs, yet the second starts no counter at 1: there is one entry, with counter
  2 and the edgeType of the first row. The same happens for a row without a source and a
  row whose source is the text undefined.
\<close>

theorem consolidation_merges_different_pairs:
  "map (\<lambda>e. (source e, target e))
       [\<lparr>source = Some ''a'', target = Some ''b-c'', edgeType = Some ''x''\<rparr>,
        \<lparr>source = Some ''a-b'', target = Some ''c'', edgeType = Some ''y''\<rparr>]
     = [(Some ''a'', Some ''b-c''), (Some ''a-b'', Some ''c'')]
   \<and> (Some ''a'', Some ''b-c'') \<noteq> (Some ''a-b'', Some ''c'')
   \<and> map_values (consolidatedEdges
       [\<lparr>source = Some ''a'', target = Some ''b-c'', edgeType = Some ''x''\<rparr>,
        \<lparr>source = Some ''a-b'', target = Some ''c'', edgeType = Some ''y''\<rparr>])
     = [\<lparr>c_source = Some ''a'', c_target = Some ''b-c'', c_count = 2, c_edgeType = Some ''x''\<rparr>]
   \<and> (None :: string option, Some ''b'') \<noteq> (Some ''undefined'', Some ''b'')
   \<and> map_values (consolidatedEdges
       [\<lparr>source = None, target = Some ''b'', edgeType = Some ''x''\<rparr>,
        \<lparr>source = Some ''undefined'', target = Some ''b'', edgeType = Some ''y''\<rparr>])
     = [\<lparr>c_source = None, c_target = Some ''b'', c_count = 2, c_edgeType = Some ''x''\<rparr>]"
  by (simp add: consolidatedEdges_def consolidateStep_def map_has_def edgeKey_def
      js_to_string_def newEntry_def map_values_def)

text \<open>
  Claim C10. The consolidation key is the string \<open>source @ ''-'' @ target\<close>. The keys of the
  consolidated map are the distinct key strings of the input in first-seen order, so two
  rows fall into one entry exactly when their key strings are equal. The rows
  (a, b-c) and (a-b, c) have the same key string a-b-c and are consolidated into one entry
  with counter 2, which carries the endpoints of the first row.
\<close>

theorem edgeKey_concatenation_merges_distinct_pairs:
  "edgeKey e = js_to_string (source e) @ ''-'' @ js_to_string (target e)
   \<and> map fst (consolidatedEdges es) = firstSeen (map edgeKey es)
   \<and> distinct (map fst (consolidatedEdges es))
   \<and> set (map fst (consolidatedEdges es)) = edgeKey ` set es
   \<and> consolidatedEdges
       [\<lparr>source = Some ''a'', target = Some ''b-c'', edgeType = t1\<rparr>,
        \<lparr>source = Some ''a-b'', target = Some ''c'', edgeType = t2\<rparr>]
     = [(''a-b-c'',
         \<lparr>c_source = Some ''a'', c_target = Some ''b-c'', c_count = 2, c_edgeType = t1\<rparr>)]"
proof -
  have keys: "map fst (consolidatedEdges es) = firstSeen (map edgeKey es)"
    by (simp add: consolidatedEdges_def keys_consolidate_fold firstSeen_def)
  have inst: "consolidatedEdges
       [\<lparr>source = Some ''a'', target = Some ''b-c'', edgeType = t1\<rparr>,
        \<lparr>source = Some ''a-b'', target = Some ''c'', edgeType = t2\<rparr>]
     = [(''a-b-c'',
         \<lparr>c_source = Some ''a'', c_target = Some ''b-c'', c_count = 2, c_edgeType = t1\<rparr>)]"
    by (simp add: consolidatedEdges_def consolidateStep_def map_has_def edgeKey_def
        js_to_string_def newEntry_def)
  show ?thesis
    using keys inst by (simp add: edgeKey_def distinct_firstSeen set_firstSeen)
qed

section \<open>Node deduplication\<close>

lemma find_append_first:
  "find P (xs @ ys) = (case find P xs of Some x \<Rightarrow> Some x | None \<Rightarrow> find P ys)"
  by (induction xs) auto

lemma values_by_keys:
  "distinct (map fst m) \<Longrightarrow> map (map_get m) (map fst m) = map (\<lambda>p. Some (snd p)) m"
proof (induction m)
  case Nil
  show ?case by simp
next
  case (Cons p m)
  have "map (map_get (p # m)) (map fst m) = map (map_get m) (map fst m)"
    using Cons.prems by (cases p) (auto simp: image_iff)
  then show ?case using Cons by (cases p) auto
qed

lemma keys_uniqueNodesMap_fold:
  "map fst (foldl (\<lambda>m node. map_set m (n_id node) node) m0 ns)
     = foldl insertKey (map fst m0) (map n_id ns)"
  by (induction ns arbitrary: m0) (simp_all add: keys_map_set)

lemma get_uniqueNodesMap_fold:
  "map_get (foldl (\<lambda>m node. map_set m (n_id node) node) m0 ns) i
     = (case find (\<lambda>n. n_id n = i) (rev ns) of Some n \<Rightarrow> Some n | None \<Rightarrow> map_get m0 i)"
  by (induction ns arbitrary: m0)
     (auto simp: find_append_first map_get_map_set split: option.splits)

lemma keys_uniqueNodes_A_fold:
  "map fst (foldl (\<lambda>m node. if \<not> map_has m (n_id node) then map_set m (n_id node) node else m)
              m0 ns)
     = foldl insertKey (map fst m0) (map n_id ns)"
  by (induction ns arbitrary: m0)
     (auto simp: keys_map_set map_has_def map_get_None_iff insertKey_def)

lemma get_uniqueNodes_A_fold:
  "map_get (foldl (\<lambda>m node. if \<not> map_has m (n_id node) then map_set m (n_id node) node else m)
              m0 ns) i
     = (case map_get m0 i of Some n \<Rightarrow> Some n | None \<Rightarrow> find (\<lambda>n. n_id n = i) ns)"
  by (induction ns arbitrary: m0)
     (auto simp: map_get_map_set map_has_def split: option.splits)

lemma keys_uniqueNodesMap: "map fst (uniqueNodesMap ns) = firstSeen (map n_id ns)"
  by (simp add: uniqueNodesMap_def keys_uniqueNodesMap_fold firstSeen_def)

lemma uniqueNodes_B_rows:
  "map Some (uniqueNodes_B ns)
     = map (\<lambda>i. find (\<lambda>n. n_id n = i) (rev ns)) (firstSeen (map n_id ns))"
proof -
  let ?m = "uniqueNodesMap ns"
  have d: "distinct (map fst ?m)"
    by (simp add: keys_uniqueNodesMap distinct_firstSeen)
  have g: "map_get ?m = (\<lambda>i. find (\<lambda>n. n_id n = i) (rev ns))"
    by (rule ext) (simp add: uniqueNodesMap_def get_uniqueNodesMap_fold split: option.splits)
  have "map Some (uniqueNodes_B ns) = map (map_get ?m) (map fst ?m)"
    using values_by_keys[OF d] by (simp add: uniqueNodes_B_def map_values_def)
  then show ?thesis by (simp add: keys_uniqueNodesMap g)
qed

lemma keys_uniqueNodes_A: "map fst (uniqueNodes_A ns) = firstSeen (map n_id ns)"
  by (simp add: uniqueNodes_A_def keys_uniqueNodes_A_fold firstSeen_def)

lemma uniqueNodes_A_rows:
  "map Some (map_values (uniqueNodes_A ns))
     = map (\<lambda>i. find (\<lambda>n. n_id n = i) ns) (firstSeen (map n_id ns))"
proof -
  let ?m = "uniqueNodes_A ns"
  have d: "distinct (map fst ?m)"
    by (simp add: keys_uniqueNodes_A distinct_firstSeen)
  have g: "map_get ?m = (\<lambda>i. find (\<lambda>n. n_id n = i) ns)"
    by (rule ext) (simp add: uniqueNodes_A_def get_uniqueNodes_A_fold)
  have "map Some (map_values ?m) = map (map_get ?m) (map fst ?m)"
    using values_by_keys[OF d] by (simp add: map_values_def)
  then show ?thesis by (simp add: keys_uniqueNodes_A g)
qed

lemma find_by_id_present:
  "i \<in> set (map n_id xs) \<Longrightarrow> map_option n_id (find (\<lambda>n. n_id n = i) xs) = Some i"
  by (induction xs) auto

lemma ids_of_found_rows:
  assumes "map Some out = map (\<lambda>i. find (\<lambda>n. n_id n = i) xs) ks" and "set ks \<subseteq> set (map n_id xs)"
  shows "map n_id out = ks"
proof -
  have "map Some (map n_id out) = map (map_option n_id) (map Some out)"
    by simp
  also have "\<dots> = map (\<lambda>i. map_option n_id (find (\<lambda>n. n_id n = i) xs)) ks"
    by (simp add: assms(1))
  also have "\<dots> = map Some ks"
    using assms(2) by (intro map_cong refl find_by_id_present) auto
  finally have "map Some (map n_id out) = map Some ks" .
  then show ?thesis
    by (metis inj_Some inj_map_eq_map)
qed

text \<open>
  Claim C2, as the code has it. All three deduplications keep exactly one row per id, at
  the position where the id was first seen. \<^verbatim>\<open>loadAndProcessCSVFiles\<close> (and the map that
  \<^verbatim>\<open>loadGraphInChunks\<close> fills with the same \<^verbatim>\<open>set\<close> calls) keeps, for each id, the last
  row with that id: last write wins, and the rows with id "1" and types "A", "B" give one
  row of type "B". \<^verbatim>\<open>updateGraph\<close> guards the \<^verbatim>\<open>set\<close> with \<^verbatim>\<open>has\<close> and keeps, for each
  id, the first row with that id.
\<close>

theorem node_dedup_one_row_per_id:
  "map Some (uniqueNodes_B ns)
     = map (\<lambda>i. find (\<lambda>n. n_id n = i) (rev ns)) (firstSeen (map n_id ns))
   \<and> map n_id (uniqueNodes_B ns) = firstSeen (map n_id ns)
   \<and> distinct (map n_id (uniqueNodes_B ns))
   \<and> uniqueNodes_B
       [\<lparr>n_id = Some ''1'', n_type = Some ''A'', n_label = l1\<rparr>,
        \<lparr>n_id = Some ''1'', n_type = Some ''B'', n_label = l2\<rparr>]
     = [\<lparr>n_id = Some ''1'', n_type = Some ''B'', n_label = l2\<rparr>]
   \<and> map Some (map_values (uniqueNodes_A ns))
     = map (\<lambda>i. find (\<lambda>n. n_id n = i) ns) (firstSeen (map n_id ns))
   \<and> map n_id (map_values (uniqueNodes_A ns)) = firstSeen (map n_id ns)
   \<and> distinct (map n_id (map_values (uniqueNodes_A ns)))"
proof -
  have b: "map n_id (uniqueNodes_B ns) = firstSeen (map n_id ns)"
    by (rule ids_of_found_rows[OF uniqueNodes_B_rows]) (simp add: set_firstSeen)
  have a: "map n_id (map_values (uniqueNodes_A ns)) = firstSeen (map n_id ns)"
    by (rule ids_of_found_rows[OF uniqueNodes_A_rows]) (simp add: set_firstSeen)
  have inst: "uniqueNodes_B
       [\<lparr>n_id = Some ''1'', n_type = Some ''A'', n_label = l1\<rparr>,
        \<lparr>n_id = Some ''1'', n_type = Some ''B'', n_label = l2\<rparr>]
     = [\<lparr>n_id = Some ''1'', n_type = Some ''B'', n_label = l2\<rparr>]"
    by (simp add: uniqueNodes_B_def uniqueNodesMap_def map_values_def)
  show ?thesis
    using uniqueNodes_B_rows[of ns] uniqueNodes_A_rows[of ns] inst
    by (simp only: a b distinct_firstSeen simp_thms)
qed

text \<open>
  Claim C2 as stated fails on \<^verbatim>\<open>updateGraph\<close>: of the rows with id "1" and types "A", "B"
  it keeps the row of type "A".
\<close>

theorem updateGraph_dedup_keeps_first_row:
  "map n_type (map_values (uniqueNodes_A
       [\<lparr>n_id = Some ''1'', n_type = Some ''A'', n_label = None\<rparr>,
        \<lparr>n_id = Some ''1'', n_type = Some ''B'', n_label = None\<rparr>]))
     = [Some ''A'']
   \<and> Some ''A'' \<noteq> Some ''B''"
  by (simp add: uniqueNodes_A_def map_has_def map_values_def)

section \<open>Colour assignment\<close>

lemma map_set_absent: "k \<notin> set (map fst m) \<Longrightarrow> map_set m k v = m @ [(k, v)]"
  by (induction m) auto

lemma map_get_SomeD: "map_get m k = Some v \<Longrightarrow> (k, v) \<in> set m"
  by (induction m) (auto split: if_splits)

lemma colors_nonempty: "colors ! (i mod length colors) \<noteq> []"
proof -
  have "\<forall>c \<in> set colors. c \<noteq> []" by (simp add: colors_def)
  moreover have "colors ! (i mod length colors) \<in> set colors"
    by (rule nth_mem) (simp add: colors_def)
  ultimately show ?thesis by blast
qed

lemma keys_paletteTable: "map fst (paletteTable pal ks) = ks"
  by (simp add: paletteTable_def)

lemma paletteTable_snoc:
  "paletteTable pal (ks @ [k]) = paletteTable pal ks @ [(k, pal ! (length ks mod length pal))]"
  by (simp add: paletteTable_def)

lemma values_paletteTable:
  assumes "map_get (paletteTable colors ks) k = Some v"
  shows "v \<noteq> []"
proof -
  have "(k, v) \<in> set (paletteTable colors ks)"
    using assms by (rule map_get_SomeD)
  then have "v \<in> set (map (\<lambda>N. colors ! (N mod length colors)) [0..<length ks])"
    unfolding paletteTable_def by (rule set_zip_rightD)
  then show ?thesis
    using colors_nonempty by auto
qed

lemma proto_key_not_listed: "k \<notin> set objectPrototypeKeys \<Longrightarrow> k \<noteq> ''__proto__''"
  by (auto simp: objectPrototypeKeys_def)

lemma assignTypeColor_table:
  assumes "js_to_string ty \<notin> set objectPrototypeKeys"
  shows "assignTypeColor (paletteTable colors ks, length ks) ty
           = (paletteTable colors (insertKey ks (js_to_string ty)),
              length (insertKey ks (js_to_string ty)))"
proof (cases "js_to_string ty \<in> set ks")
  case True
  then obtain v where v: "map_get (paletteTable colors ks) (js_to_string ty) = Some v"
    using map_get_None_iff[of "paletteTable colors ks" "js_to_string ty"]
    by (auto simp: keys_paletteTable)
  then have "truthy (obj_get (paletteTable colors ks) (js_to_string ty))"
    using values_paletteTable[OF v] by (simp add: obj_get_def)
  then show ?thesis
    using True by (simp add: assignTypeColor_def insertKey_def)
next
  case False
  then have n: "map_get (paletteTable colors ks) (js_to_string ty) = None"
    by (simp add: map_get_None_iff keys_paletteTable)
  then have "\<not> truthy (obj_get (paletteTable colors ks) (js_to_string ty))"
    using assms by (simp add: obj_get_def)
  then show ?thesis
    using False proto_key_not_listed[OF assms]
    by (simp add: assignTypeColor_def Let_def insertKey_def obj_set_def map_set_absent
        keys_paletteTable paletteTable_snoc)
qed

lemma assignTypeColor_fold_table:
  assumes "set (map typeKey ns) \<inter> set objectPrototypeKeys = {}"
  shows "foldl (\<lambda>st node. assignTypeColor st (n_type node)) (paletteTable colors ks, length ks) ns
           = (paletteTable colors (foldl insertKey ks (map typeKey ns)),
              length (foldl insertKey ks (map typeKey ns)))"
  using assms
proof (induction ns arbitrary: ks)
  case Nil
  show ?case by simp
next
  case (Cons a ns)
  have a: "js_to_string (n_type a) \<notin> set objectPrototypeKeys"
    using Cons.prems by (auto simp: typeKey_def)
  have r: "set (map typeKey ns) \<inter> set objectPrototypeKeys = {}"
    using Cons.prems by auto
  show ?case
    by (simp add: assignTypeColor_table[OF a] Cons.IH[OF r] typeKey_def)
qed

lemma storesColors_get: "storesColors m \<Longrightarrow> map_get m k = Some v \<Longrightarrow> v \<noteq> []"
  by (induction m) (auto simp: storesColors_def split: if_splits)

lemma storesColors_map_set: "storesColors m \<Longrightarrow> v \<noteq> [] \<Longrightarrow> storesColors (map_set m k v)"
  by (induction m) (auto simp: storesColors_def)

lemma assignTypeColor_keeps:
  assumes "storesColors (fst st)"
  shows "storesColors (fst (assignTypeColor st ty))
         \<and> (map_get (fst st) k = Some c \<longrightarrow> map_get (fst (assignTypeColor st ty)) k = Some c)"
proof (cases "truthy (obj_get (fst st) (js_to_string ty))")
  case True
  then show ?thesis using assms by (simp add: assignTypeColor_def Let_def)
next
  case False
  have "map_get (fst st) (js_to_string ty) = None"
  proof (cases "map_get (fst st) (js_to_string ty)")
    case None
    then show ?thesis .
  next
    case (Some v)
    then have "v \<noteq> []" using storesColors_get[OF assms] by blast
    then show ?thesis using False Some by (simp add: obj_get_def)
  qed
  then show ?thesis
    using False assms colors_nonempty
    by (auto simp: assignTypeColor_def Let_def obj_set_def map_get_map_set storesColors_map_set)
qed

lemma assignTypeColor_fold_keeps:
  assumes "storesColors (fst st)" and "map_get (fst st) k = Some c"
  shows "map_get (fst (foldl (\<lambda>st node. assignTypeColor st (n_type node)) st ns)) k = Some c"
  using assms
proof (induction ns arbitrary: st)
  case Nil
  then show ?case by simp
next
  case (Cons a ns)
  show ?case
    using Cons.IH[of "assignTypeColor st (n_type a)"] assignTypeColor_keeps[OF Cons.prems(1), of "n_type a" k c] Cons.prems(2)
    by simp
qed

lemma assignTypeColor_fold_stores:
  assumes "storesColors (fst st)"
  shows "storesColors (fst (foldl (\<lambda>st node. assignTypeColor st (n_type node)) st ns))"
  using assms
proof (induction ns arbitrary: st)
  case Nil
  then show ?case by simp
next
  case (Cons a ns)
  show ?case
    using Cons.IH[of "assignTypeColor st (n_type a)"] assignTypeColor_keeps[OF Cons.prems(1), of "n_type a"]
    by simp
qed

lemma getTypeColorMap_stable:
  "map_get (getTypeColorMap ns) k = Some c \<Longrightarrow> map_get (getTypeColorMap (ns @ ms)) k = Some c"
  unfolding getTypeColorMap_def foldl_append
  by (rule assignTypeColor_fold_keeps[OF assignTypeColor_fold_stores]) (simp_all add: storesColors_def)

lemma fst_nodeStep_A_fold:
  "fst (foldl nodeStep_A (st, g) rows) = foldl (\<lambda>st node. assignTypeColor st (n_type node)) st rows"
  by (induction rows arbitrary: st g) (simp_all add: nodeStep_A_def Let_def)

lemma getColorForType_table:
  assumes "js_to_string ty \<notin> set objectPrototypeKeys"
  shows "getColorForType ty =
           (if ty = Some ''Type1'' then Str ''red''
            else if ty = Some ''Type2'' then Str ''blue''
            else if ty = Some ''Type3'' then Str ''green''
            else Str ''gray'')"
  using assms
  by (cases ty) (auto simp: getColorForType_def obj_get_def js_to_string_def Let_def)

text \<open>
  Claim C4, as the code has it. \<^verbatim>\<open>getTypeColorMap\<close> and the node loop of \<^verbatim>\<open>updateGraph\<close>
  run the same assignment. For rows none of whose type keys names a member that a plain
  object inherits, the \<open>N\<close>-th distinct type key in first-seen order (from 0) gets
  \<open>colors ! (N mod length colors)\<close>; the map that \<^verbatim>\<open>updateGraph\<close> builds over its rows is the
  one \<^verbatim>\<open>getTypeColorMap\<close> builds; a colour once assigned to a key is the colour found for
  that key after any further rows; and the types A, B, A, C get palette entries 0, 1, 2.
  \<^verbatim>\<open>getColorForType\<close> of part 001, which colours the nodes of the chunked variant, uses no
  palette: it reads a fixed table and answers gray for every other type.
\<close>

theorem typeColorMap_palette_by_first_seen_order:
  "set (map typeKey ns) \<inter> set objectPrototypeKeys = {} \<Longrightarrow>
     getTypeColorMap ns
       = zip (firstSeen (map typeKey ns))
           (map (\<lambda>N. colors ! (N mod length colors)) [0..<length (firstSeen (map typeKey ns))])
     \<and> fst (fst (foldl nodeStep_A (([], 0), g) ns)) = getTypeColorMap ns
     \<and> (\<forall>k c ms. map_get (getTypeColorMap ns) k = Some c
            \<longrightarrow> map_get (getTypeColorMap (ns @ ms)) k = Some c)
     \<and> getTypeColorMap
         [\<lparr>n_id = i1, n_type = Some ''A'', n_label = l1\<rparr>,
          \<lparr>n_id = i2, n_type = Some ''B'', n_label = l2\<rparr>,
          \<lparr>n_id = i3, n_type = Some ''A'', n_label = l3\<rparr>,
          \<lparr>n_id = i4, n_type = Some ''C'', n_label = l4\<rparr>]
       = [(''A'', colors ! 0), (''B'', colors ! 1), (''C'', colors ! 2)]
     \<and> (\<forall>ty. js_to_string ty \<notin> set objectPrototypeKeys \<longrightarrow>
          getColorForType ty =
            (if ty = Some ''Type1'' then Str ''red''
             else if ty = Some ''Type2'' then Str ''blue''
             else if ty = Some ''Type3'' then Str ''green''
             else Str ''gray''))"
proof -
  assume h: "set (map typeKey ns) \<inter> set objectPrototypeKeys = {}"
  have t: "getTypeColorMap ns
       = zip (firstSeen (map typeKey ns))
           (map (\<lambda>N. colors ! (N mod length colors)) [0..<length (firstSeen (map typeKey ns))])"
    using assignTypeColor_fold_table[OF h, of "[]"]
    by (simp add: getTypeColorMap_def firstSeen_def paletteTable_def)
  have a: "fst (fst (foldl nodeStep_A (([], 0), g) ns)) = getTypeColorMap ns"
    by (simp add: fst_nodeStep_A_fold getTypeColorMap_def)
  have i: "getTypeColorMap
         [\<lparr>n_id = i1, n_type = Some ''A'', n_label = l1\<rparr>,
          \<lparr>n_id = i2, n_type = Some ''B'', n_label = l2\<rparr>,
          \<lparr>n_id = i3, n_type = Some ''A'', n_label = l3\<rparr>,
          \<lparr>n_id = i4, n_type = Some ''C'', n_label = l4\<rparr>]
       = [(''A'', colors ! 0), (''B'', colors ! 1), (''C'', colors ! 2)]"
    by (simp add: getTypeColorMap_def assignTypeColor_def obj_get_def obj_set_def
        objectPrototypeKeys_def js_to_string_def colors_def)
  show ?thesis
    using t a i getTypeColorMap_stable getColorForType_table by blast
qed

theorem typeColorMap_palette_witness:
  "set (map typeKey
         [\<lparr>n_id = Some ''1'', n_type = Some ''X'', n_label = None\<rparr>,
          \<lparr>n_id = Some ''2'', n_type = None, n_label = None\<rparr>,
          \<lparr>n_id = Some ''3'', n_type = Some ''X'', n_label = None\<rparr>])
     \<inter> set objectPrototypeKeys = {}
   \<and> getTypeColorMap
         [\<lparr>n_id = Some ''1'', n_type = Some ''X'', n_label = None\<rparr>,
          \<lparr>n_id = Some ''2'', n_type = None, n_label = None\<rparr>,
          \<lparr>n_id = Some ''3'', n_type = Some ''X'', n_label = None\<rparr>]
       = [(''X'', ''#ff6f61''), (''undefined'', ''#6b5b95'')]
   \<and> map_get (getTypeColorMap
         [\<lparr>n_id = Some ''1'', n_type = Some ''X'', n_label = None\<rparr>,
          \<lparr>n_id = Some ''2'', n_type = None, n_label = None\<rparr>,
          \<lparr>n_id = Some ''3'', n_type = Some ''X'', n_label = None\<rparr>]) ''X'' = Some ''#ff6f61''
   \<and> map_get (getTypeColorMap
         ([\<lparr>n_id = Some ''1'', n_type = Some ''X'', n_label = None\<rparr>,
           \<lparr>n_id = Some ''2'', n_type = None, n_label = None\<rparr>,
           \<lparr>n_id = Some ''3'', n_type = Some ''X'', n_label = None\<rparr>]
          @ [\<lparr>n_id = Some ''4'', n_type = Some ''Y'', n_label = None\<rparr>])) ''X'' = Some ''#ff6f61''
   \<and> js_to_string (Some ''Type1'') \<notin> set objectPrototypeKeys
   \<and> getColorForType (Some ''Type1'') = Str ''red''"
proof -
  let ?ns = "[\<lparr>n_id = Some ''1'', n_type = Some ''X'', n_label = None\<rparr>,
          \<lparr>n_id = Some ''2'', n_type = None, n_label = None\<rparr>,
          \<lparr>n_id = Some ''3'', n_type = Some ''X'', n_label = None\<rparr>]"
  have h: "set (map typeKey ?ns) \<inter> set objectPrototypeKeys = {}"
    by (simp add: typeKey_def js_to_string_def objectPrototypeKeys_def)
  have p: "js_to_string (Some ''Type1'') \<notin> set objectPrototypeKeys"
    by (simp add: js_to_string_def objectPrototypeKeys_def)
  note th = typeColorMap_palette_by_first_seen_order[OF h]
  have t: "getTypeColorMap ?ns = [(''X'', ''#ff6f61''), (''undefined'', ''#6b5b95'')]"
    using th by (simp add: typeKey_def js_to_string_def firstSeen_def insertKey_def colors_def)
  then have x: "map_get (getTypeColorMap ?ns) ''X'' = Some ''#ff6f61''"
    by simp
  have y: "map_get (getTypeColorMap
             (?ns @ [\<lparr>n_id = Some ''4'', n_type = Some ''Y'', n_label = None\<rparr>])) ''X''
           = Some ''#ff6f61''"
    using th x by blast
  have c: "getColorForType (Some ''Type1'') = Str ''red''"
    using th p by simp
  show ?thesis
    using h p t x y c by (simp only: simp_thms)
qed

text \<open>
  Claim C4 as stated fails in two places. \<^verbatim>\<open>getColorForType\<close> of part 001 gives type A the
  colour gray, not the first palette colour. And \<^verbatim>\<open>getTypeColorMap\<close> on the types toString,
  A gives A, the distinct type number 1, the palette colour number 0, because
  \<^verbatim>\<open>typeColorMap['toString']\<close> reads the inherited method and is truthy, so that toString
  gets no colour at all.
\<close>

theorem color_assignment_not_by_palette:
  "getColorForType (Some ''A'') = Str ''gray''
   \<and> Str ''gray'' \<noteq> Str (colors ! 0)
   \<and> firstSeen (map typeKey
         [\<lparr>n_id = Some ''1'', n_type = Some ''toString'', n_label = None\<rparr>,
          \<lparr>n_id = Some ''2'', n_type = Some ''A'', n_label = None\<rparr>])
       = [''toString'', ''A'']
   \<and> getTypeColorMap
         [\<lparr>n_id = Some ''1'', n_type = Some ''toString'', n_label = None\<rparr>,
          \<lparr>n_id = Some ''2'', n_type = Some ''A'', n_label = None\<rparr>]
       = [(''A'', colors ! 0)]
   \<and> colors ! 0 \<noteq> colors ! 1"
  by (simp add: getColorForType_def getTypeColorMap_def assignTypeColor_def obj_get_def
      obj_set_def objectPrototypeKeys_def js_to_string_def colors_def typeKey_def
      firstSeen_def insertKey_def)

section \<open>Pruning of isolated nodes\<close>

lemma degree_zero_no_edge:
  "degree g h = 0 \<Longrightarrow> filter (\<lambda>e. src e \<noteq> h \<and> tgt e \<noteq> h) (edges g) = edges g"
  by (auto simp: degree_def filter_empty_conv filter_id_conv)

lemma remove_isolated_fold:
  assumes "\<forall>h \<in> set hs. degree g h = 0"
  shows "edges (foldl removeNode g hs) = edges g
         \<and> nodes (foldl removeNode g hs) = filter (\<lambda>n. handle n \<notin> set hs) (nodes g)"
  using assms
proof (induction hs rule: rev_induct)
  case Nil
  show ?case by simp
next
  case (snoc h hs)
  then have ih: "edges (foldl removeNode g hs) = edges g"
    "nodes (foldl removeNode g hs) = filter (\<lambda>n. handle n \<notin> set hs) (nodes g)"
    by auto
  have "degree (foldl removeNode g hs) h = 0"
    using snoc.prems ih(1) by (simp add: degree_def)
  then have "edges (removeNode (foldl removeNode g hs) h) = edges g"
    using degree_zero_no_edge[of "foldl removeNode g hs" h] ih(1) by (simp add: removeNode_def)
  moreover have "nodes (removeNode (foldl removeNode g hs) h)
                   = filter (\<lambda>n. handle n \<notin> set (hs @ [h])) (nodes g)"
    by (auto simp: removeNode_def ih(2) intro: filter_cong)
  ultimately show ?case by simp
qed

lemma foldl_removeNode_handles:
  "foldl (\<lambda>g' node. removeNode g' (handle node)) g ns = foldl removeNode g (map handle ns)"
  by (induction ns arbitrary: g) simp_all

lemma pruneIsolated_result:
  "nodes (pruneIsolated g) = filter (\<lambda>n. degree g (handle n) \<noteq> 0) (nodes g)
   \<and> edges (pruneIsolated g) = edges g"
proof -
  let ?hs = "map handle (filter (\<lambda>node. degree g (handle node) = 0) (nodes g))"
  have z: "\<forall>h \<in> set ?hs. degree g h = 0" by auto
  have "filter (\<lambda>n. handle n \<notin> set ?hs) (nodes g) = filter (\<lambda>n. degree g (handle n) \<noteq> 0) (nodes g)"
    by (rule filter_cong) (auto simp: image_iff)
  then show ?thesis
    using remove_isolated_fold[OF z] by (simp add: pruneIsolated_def foldl_removeNode_handles)
qed

lemma setStyle_keeps: "map handle (nodes (setStyle g h f)) = map handle (nodes g)
   \<and> map tag (nodes (setStyle g h f)) = map tag (nodes g) \<and> edges (setStyle g h f) = edges g"
  by (simp add: setStyle_def comp_def if_distrib cong: if_cong)

lemma setStyle_fold_keeps:
  "map handle (nodes (foldl (\<lambda>g' node. setStyle g' (handle node) f) g ns)) = map handle (nodes g)
   \<and> map tag (nodes (foldl (\<lambda>g' node. setStyle g' (handle node) f) g ns)) = map tag (nodes g)
   \<and> edges (foldl (\<lambda>g' node. setStyle g' (handle node) f) g ns) = edges g"
  by (induction ns arbitrary: g) (simp_all add: setStyle_keeps)

lemma styleCluster_fold_keeps:
  "map handle (nodes (fst (foldl (styleCluster ids g0) st ks))) = map handle (nodes (fst st))
   \<and> map tag (nodes (fst (foldl (styleCluster ids g0) st ks))) = map tag (nodes (fst st))
   \<and> edges (fst (foldl (styleCluster ids g0) st ks)) = edges (fst st)"
  by (induction ks arbitrary: st) (simp_all add: styleCluster_def Let_def setStyle_fold_keeps)

lemma styleClusters_keeps:
  "map handle (nodes (styleClusters ids g)) = map handle (nodes g)
   \<and> map tag (nodes (styleClusters ids g)) = map tag (nodes g)
   \<and> edges (styleClusters ids g) = edges g"
  using styleCluster_fold_keeps[of ids g "(g, 0)"] by (simp add: styleClusters_def)

lemma degree_cong: "edges g' = edges g \<Longrightarrow> degree g' h = degree g h"
  by (simp add: degree_def)

lemma handles_after_filter:
  "map handle xs = map handle ys \<Longrightarrow>
   map handle (filter (\<lambda>n. P (handle n)) xs) = map handle (filter (\<lambda>n. P (handle n)) ys)"
proof -
  assume h: "map handle xs = map handle ys"
  have "map handle (filter (\<lambda>n. P (handle n)) xs) = filter P (map handle xs)"
    by (simp add: filter_map comp_def)
  also have "\<dots> = filter P (map handle ys)" by (simp add: h)
  also have "\<dots> = map handle (filter (\<lambda>n. P (handle n)) ys)"
    by (simp add: filter_map comp_def)
  finally show ?thesis .
qed

section \<open>Edges of updateGraph\<close>

lemma nodes_attachEdge_A: "nodes (attachEdge_A g e) = nodes g"
  by (simp add: attachEdge_A_def createEdge_def split: option.splits)

lemma findNodeById_attachEdge_A: "findNodeById (attachEdge_A g e) i = findNodeById g i"
  by (simp add: findNodeById_def nodes_attachEdge_A)

lemma findNodeById_None_iff:
  "findNodeById g i = None \<longleftrightarrow> i \<notin> set (map (\<lambda>n. n_id (tag n)) (nodes g))"
  by (auto simp: findNodeById_def find_None_iff)

lemma etag_attachEdge_A:
  "map etag (edges (attachEdge_A g e)) = map etag (edges g) @ (if attaches g e then [e] else [])"
  using findNodeById_None_iff[of g "c_source e"] findNodeById_None_iff[of g "c_target e"]
  by (auto simp: attachEdge_A_def createEdge_def attaches_def split: option.splits)

lemma attaches_cong: "nodes g' = nodes g \<Longrightarrow> attaches g' = attaches g"
  by (rule ext) (simp add: attaches_def)

lemma attachEdge_A_fold:
  "nodes (foldl attachEdge_A g es) = nodes g
   \<and> map etag (edges (foldl attachEdge_A g es)) = map etag (edges g) @ filter (attaches g) es"
proof (induction es arbitrary: g)
  case Nil
  show ?case by simp
next
  case (Cons e es)
  show ?case
    using Cons.IH[of "attachEdge_A g e"]
    by (simp add: nodes_attachEdge_A etag_attachEdge_A attaches_cong[OF nodes_attachEdge_A])
qed

lemma nodeStep_A_fold_graph:
  "map tag (nodes (snd (foldl nodeStep_A (st, g) rows))) = map tag (nodes g) @ rows
   \<and> edges (snd (foldl nodeStep_A (st, g) rows)) = edges g"
  by (induction rows arbitrary: st g) (simp_all add: nodeStep_A_def Let_def createNode_def)

lemma updateGraph_nodes:
  "map tag (nodes (graph (updateGraph cts w ns es))) = map_values (uniqueNodes_A ns)"
proof -
  let ?g1 = "snd (foldl nodeStep_A (([], 0), clear (graph w)) (map_values (uniqueNodes_A ns)))"
  have "map tag (nodes ?g1) = map_values (uniqueNodes_A ns)"
    using nodeStep_A_fold_graph[of "([], 0)" "clear (graph w)" "map_values (uniqueNodes_A ns)"]
    by (simp add: clear_def)
  then show ?thesis
    using attachEdge_A_fold[of ?g1 "map_values (consolidatedEdges es)"]
    by (simp add: updateGraph_def Let_def)
qed

text \<open>
  Claim C7. The nodes of the graph that \<^verbatim>\<open>updateGraph\<close> builds carry the deduplicated rows,
  and its edges carry exactly those consolidated edges whose source id and target id are
  both ids of nodes of the graph, in the order of the consolidated map. A consolidated edge
  whose source id or target id matches no node therefore has no graph edge. The function
  has no failing branch: the edge is skipped by the test \<^verbatim>\<open>sourceNode && targetNode\<close>.
\<close>

theorem dangling_edges_are_dropped:
  "map tag (nodes (graph (updateGraph cts w ns es))) = map_values (uniqueNodes_A ns)
   \<and> map etag (edges (graph (updateGraph cts w ns es)))
       = filter (\<lambda>edge. c_source edge \<in> set (map (\<lambda>n. n_id (tag n)) (nodes (graph (updateGraph cts w ns es))))
                     \<and> c_target edge \<in> set (map (\<lambda>n. n_id (tag n)) (nodes (graph (updateGraph cts w ns es)))))
           (map_values (consolidatedEdges es))
   \<and> (\<forall>edge \<in> set (map_values (consolidatedEdges es)).
        c_source edge \<notin> set (map (\<lambda>n. n_id (tag n)) (nodes (graph (updateGraph cts w ns es))))
        \<or> c_target edge \<notin> set (map (\<lambda>n. n_id (tag n)) (nodes (graph (updateGraph cts w ns es))))
        \<longrightarrow> edge \<notin> set (map etag (edges (graph (updateGraph cts w ns es)))))"
proof -
  let ?g1 = "snd (foldl nodeStep_A (([], 0), clear (graph w)) (map_values (uniqueNodes_A ns)))"
  let ?g2 = "foldl attachEdge_A ?g1 (map_values (consolidatedEdges es))"
  have g: "graph (updateGraph cts w ns es) = ?g2"
    by (simp add: updateGraph_def Let_def)
  have n1: "map tag (nodes ?g1) = map_values (uniqueNodes_A ns)" and e1: "edges ?g1 = []"
    using nodeStep_A_fold_graph[of "([], 0)" "clear (graph w)" "map_values (uniqueNodes_A ns)"]
    by (simp_all add: clear_def)
  have n2: "nodes ?g2 = nodes ?g1"
    and e2: "map etag (edges ?g2) = filter (attaches ?g1) (map_values (consolidatedEdges es))"
    using attachEdge_A_fold[of ?g1 "map_values (consolidatedEdges es)"] by (simp_all add: e1)
  have a: "attaches ?g1 = attaches ?g2"
    by (rule attaches_cong[symmetric]) (rule n2)
  have 1: "map tag (nodes ?g2) = map_values (uniqueNodes_A ns)"
    by (simp add: n2 n1)
  have 2: "map etag (edges ?g2) = filter (attaches ?g2) (map_values (consolidatedEdges es))"
    by (simp add: e2 a)
  show ?thesis
    unfolding g using 1 2 unfolding attaches_def by auto
qed

theorem dangling_edges_are_dropped_witness:
  "\<lparr>c_source = Some ''a'', c_target = Some ''b'', c_count = 1, c_edgeType = None\<rparr>
     \<in> set (map_values (consolidatedEdges [\<lparr>source = Some ''a'', target = Some ''b'', edgeType = None\<rparr>]))
   \<and> Some ''b'' \<notin> set (map (\<lambda>n. n_id (tag n)) (nodes (graph (updateGraph (\<lambda>v. [])
         \<lparr>graph = \<lparr>nodes = [], edges = [], nextHandle = 0\<rparr>, document = [], events = []\<rparr>
         [\<lparr>n_id = Some ''a'', n_type = Some ''X'', n_label = None\<rparr>]
         [\<lparr>source = Some ''a'', target = Some ''b'', edgeType = None\<rparr>]))))
   \<and> \<lparr>c_source = Some ''a'', c_target = Some ''b'', c_count = 1, c_edgeType = None\<rparr>
     \<notin> set (map etag (edges (graph (updateGraph (\<lambda>v. [])
         \<lparr>graph = \<lparr>nodes = [], edges = [], nextHandle = 0\<rparr>, document = [], events = []\<rparr>
         [\<lparr>n_id = Some ''a'', n_type = Some ''X'', n_label = None\<rparr>]
         [\<lparr>source = Some ''a'', target = Some ''b'', edgeType = None\<rparr>]))))"
proof -
  have c: "map_values (consolidatedEdges [\<lparr>source = Some ''a'', target = Some ''b'', edgeType = None\<rparr>])
             = [\<lparr>c_source = Some ''a'', c_target = Some ''b'', c_count = 1, c_edgeType = None\<rparr>]"
    by (simp add: consolidatedEdges_def consolidateStep_def map_has_def newEntry_def
        map_values_def)
  have u: "map_values (uniqueNodes_A [\<lparr>n_id = Some ''a'', n_type = Some ''X'', n_label = None\<rparr>])
             = [\<lparr>n_id = Some ''a'', n_type = Some ''X'', n_label = None\<rparr>]"
    by (simp add: uniqueNodes_A_def map_has_def map_values_def)
  let ?G = "graph (updateGraph (\<lambda>v. [])
        \<lparr>graph = \<lparr>nodes = [], edges = [], nextHandle = 0\<rparr>, document = [], events = []\<rparr>
        [\<lparr>n_id = Some ''a'', n_type = Some ''X'', n_label = None\<rparr>]
        [\<lparr>source = Some ''a'', target = Some ''b'', edgeType = None\<rparr>])"
  note th = dangling_edges_are_dropped[of "\<lambda>v. []"
        "\<lparr>graph = \<lparr>nodes = [], edges = [], nextHandle = 0\<rparr>, document = [], events = []\<rparr>"
        "[\<lparr>n_id = Some ''a'', n_type = Some ''X'', n_label = None\<rparr>]"
        "[\<lparr>source = Some ''a'', target = Some ''b'', edgeType = None\<rparr>]"]
  have "map n_id (map tag (nodes ?G)) = [Some ''a'']"
    using th by (simp only: u) simp
  then have ids: "map (\<lambda>n. n_id (tag n)) (nodes ?G) = [Some ''a'']"
    by (simp add: comp_def)
  have "map etag (edges ?G) = []"
    using th by (simp only: ids c) simp
  then show ?thesis
    by (simp only: ids c) simp
qed

section \<open>Pruning in the two variants\<close>

text \<open>
  Claim C6, as the code has it. In the chunked variant the pruning of \<^verbatim>\<open>applyClustering\<close>
  (part 001, lines 256-257) removes exactly the nodes of degree 0: the nodes left are the
  nodes with at least one incident edge, in their order, and no edge is removed; the
  colouring of clusters that precedes it changes fills only, so the same holds of
  \<^verbatim>\<open>applyClustering\<close> as a whole. \<^verbatim>\<open>updateGraph\<close> has no pruning step: its graph has a node
  for every deduplicated row, with or without edges.
\<close>

theorem pruning_removes_exactly_the_isolated_nodes:
  "nodes (pruneIsolated g) = filter (\<lambda>n. degree g (handle n) \<noteq> 0) (nodes g)
   \<and> edges (pruneIsolated g) = edges g
   \<and> map handle (nodes (graph (applyClustering clustering w)))
       = map handle (filter (\<lambda>n. degree (graph w) (handle n) \<noteq> 0) (nodes (graph w)))
   \<and> edges (graph (applyClustering clustering w)) = edges (graph w)
   \<and> map tag (nodes (graph (updateGraph cts wa ns es))) = map_values (uniqueNodes_A ns)"
proof -
  let ?s = "styleClusters (clustering (graph w)) (graph w)"
  have k: "map handle (nodes ?s) = map handle (nodes (graph w))" "edges ?s = edges (graph w)"
    using styleClusters_keeps by blast+
  have d: "degree ?s = degree (graph w)"
    by (rule ext) (simp add: degree_cong[OF k(2)])
  have "map handle (nodes (pruneIsolated ?s))
          = map handle (filter (\<lambda>n. degree (graph w) (handle n) \<noteq> 0) (nodes (graph w)))"
    using handles_after_filter[OF k(1), of "\<lambda>h. degree (graph w) h \<noteq> 0"]
    by (simp add: pruneIsolated_result d)
  then show ?thesis
    using pruneIsolated_result[of g] pruneIsolated_result[of ?s] k(2) updateGraph_nodes[of cts wa ns es]
    by (simp add: applyClustering_def)
qed

text \<open>
  Claim C6 as stated fails on \<^verbatim>\<open>updateGraph\<close>: for one node row and no edge row it leaves
  the node of that row in the graph, with degree 0.
\<close>

theorem updateGraph_keeps_isolated_node:
  "map (\<lambda>n. (n_id (tag n),
             degree (graph (updateGraph (\<lambda>v. [])
               \<lparr>graph = \<lparr>nodes = [], edges = [], nextHandle = 0\<rparr>, document = [], events = []\<rparr>
               [\<lparr>n_id = Some ''a'', n_type = Some ''X'', n_label = None\<rparr>] [])) (handle n)))
     (nodes (graph (updateGraph (\<lambda>v. [])
               \<lparr>graph = \<lparr>nodes = [], edges = [], nextHandle = 0\<rparr>, document = [], events = []\<rparr>
               [\<lparr>n_id = Some ''a'', n_type = Some ''X'', n_label = None\<rparr>] [])))
     = [(Some ''a'', 0)]"
  by (simp add: updateGraph_def Let_def clear_def uniqueNodes_A_def map_has_def map_values_def
      consolidatedEdges_def nodeStep_A_def assignTypeColor_def obj_get_def obj_set_def
      objectPrototypeKeys_def js_to_string_def js_or_def colors_def createNode_def degree_def)

section \<open>Legend\<close>

lemma removeById_absent: "i \<notin> set (map elem_id doc) \<Longrightarrow> removeById i doc = doc"
  by (induction doc) auto

lemma removeById_at_most_one:
  "length (filter (\<lambda>e. elem_id e = i) doc) \<le> 1 \<Longrightarrow> i \<notin> set (map elem_id (removeById i doc))"
  by (induction doc) (auto simp: filter_empty_conv split: if_splits)

lemma removeById_last:
  "i \<notin> set (map elem_id doc) \<Longrightarrow> elem_id e = i \<Longrightarrow> removeById i (doc @ [e]) = doc"
  by (induction doc) auto

lemma replace_legend:
  assumes "length (filter (\<lambda>e. elem_id e = i) doc) \<le> 1" and "elem_id e = i" and "elem_id e' = i"
  shows "removeById i (removeById i doc @ [e]) @ [e'] = removeById i doc @ [e']"
    and "filter (\<lambda>x. elem_id x = i) (removeById i doc @ [e]) = [e]"
proof -
  have n: "i \<notin> set (map elem_id (removeById i doc))"
    using assms(1) by (rule removeById_at_most_one)
  show "removeById i (removeById i doc @ [e]) @ [e'] = removeById i doc @ [e']"
    by (simp add: removeById_last[OF n assms(2)])
  have "filter (\<lambda>x. elem_id x = i) (removeById i doc) = []"
    using n by (auto simp: filter_empty_conv)
  then show "filter (\<lambda>x. elem_id x = i) (removeById i doc @ [e]) = [e]"
    using assms(2) by simp
qed

text \<open>
  Claim C9. \<^verbatim>\<open>createLegend\<close> of variant A (from the graph) and of variant C (from the node
  rows) removes the legend element of the page and appends a new one whose rows are
  computed from its argument alone. On a page with at most one legend element, a second
  call with the same argument leaves the page as the first call left it, and after a call
  the page has exactly one legend element, holding the rows of that call only. The rows do
  not depend on the page the call started from.
\<close>

theorem legend_is_idempotent_and_replaces:
  "length (filter (\<lambda>e. elem_id e = legendId) doc) \<le> 1 \<Longrightarrow>
     createLegend_A cts (createLegend_A cts doc g) g = createLegend_A cts doc g
   \<and> filter (\<lambda>e. elem_id e = legendId) (createLegend_A cts doc g)
       = [\<lparr>elem_id = legendId, items = obj_entries (foldl (legendStep_A cts) [] (nodes g))\<rparr>]
   \<and> createLegend_C (createLegend_C doc ns) ns = createLegend_C doc ns
   \<and> filter (\<lambda>e. elem_id e = legendId) (createLegend_C doc ns)
       = [\<lparr>elem_id = legendId, items = obj_entries (getTypeColorMap ns)\<rparr>]
   \<and> items (last (createLegend_A cts doc' g)) = items (last (createLegend_A cts doc g))
   \<and> items (last (createLegend_C doc' ns)) = items (last (createLegend_C doc ns))"
proof -
  assume h: "length (filter (\<lambda>e. elem_id e = legendId) doc) \<le> 1"
  show ?thesis
    using replace_legend[OF h, of "\<lparr>elem_id = legendId, items = obj_entries (foldl (legendStep_A cts) [] (nodes g))\<rparr>"
             "\<lparr>elem_id = legendId, items = obj_entries (foldl (legendStep_A cts) [] (nodes g))\<rparr>"]
          replace_legend[OF h, of "\<lparr>elem_id = legendId, items = obj_entries (getTypeColorMap ns)\<rparr>"
             "\<lparr>elem_id = legendId, items = obj_entries (getTypeColorMap ns)\<rparr>"]
    by (simp add: createLegend_A_def createLegend_C_def)
qed

theorem legend_is_idempotent_and_replaces_witness:
  "length (filter (\<lambda>e. elem_id e = legendId)
       [\<lparr>elem_id = ''app'', items = []\<rparr>, \<lparr>elem_id = legendId, items = [(''Old'', ''#000000'')]\<rparr>])
     \<le> 1
   \<and> filter (\<lambda>e. elem_id e = legendId)
       (createLegend_C
          [\<lparr>elem_id = ''app'', items = []\<rparr>, \<lparr>elem_id = legendId, items = [(''Old'', ''#000000'')]\<rparr>]
          [\<lparr>n_id = Some ''a'', n_type = Some ''X'', n_label = None\<rparr>])
     = [\<lparr>elem_id = legendId, items = [(''X'', ''#ff6f61'')]\<rparr>]"
proof -
  have h: "length (filter (\<lambda>e. elem_id e = legendId)
       [\<lparr>elem_id = ''app'', items = []\<rparr>, \<lparr>elem_id = legendId, items = [(''Old'', ''#000000'')]\<rparr>])
     \<le> 1"
    by (simp add: legendId_def)
  have e: "obj_entries (getTypeColorMap [\<lparr>n_id = Some ''a'', n_type = Some ''X'', n_label = None\<rparr>])
             = [(''X'', ''#ff6f61'')]"
    by (simp add: getTypeColorMap_def assignTypeColor_def obj_get_def obj_set_def
        objectPrototypeKeys_def js_to_string_def colors_def obj_entries_def isArrayIndex_def)
  show ?thesis
    using h legend_is_idempotent_and_replaces[OF h,
        where ns = "[\<lparr>n_id = Some ''a'', n_type = Some ''X'', n_label = None\<rparr>]"]
    by (simp only: e)
qed

section \<open>State carried from one load to the next\<close>







section \<open>The chunk loop\<close>

lemma totalChunks_none: "totalChunks 0 c = 0"
  by (cases c) (simp_all add: totalChunks_def)


lemma totalChunks_covers: "0 < c \<Longrightarrow> n \<le> totalChunks n c * c"
proof -
  assume c: "0 < c"
  have "(n + c - 1) div c * c + (n + c - 1) mod c = n + c - 1"
    by simp
  moreover have "(n + c - 1) mod c < c" using c by simp
  ultimately show ?thesis unfolding totalChunks_def by linarith
qed

lemma fst_chunkStep:
  "fst (chunkStep b v c ns es st i)
     = foldl (\<lambda>m node. map_set m (n_id node) node) (fst st) (take c (drop (i * c) ns))"
  by (simp add: chunkStep_def Let_def)

lemma fst_chunk_fold:
  "fst (foldl (chunkStep b v c ns es) (m0, w) [0..<k])
     = foldl (\<lambda>m node. map_set m (n_id node) node) m0 (take (k * c) ns)"
proof (induction k)
  case 0
  show ?case by simp
next
  case (Suc k)
  let ?set = "\<lambda>m node. map_set m (n_id node) node"
  have t: "take (Suc k * c) ns = take (k * c) ns @ take c (drop (k * c) ns)"
    using take_add[of "k * c" c ns] by (simp add: add.commute)
  have "fst (foldl (chunkStep b v c ns es) (m0, w) [0..<Suc k])
          = foldl ?set (fst (foldl (chunkStep b v c ns es) (m0, w) [0..<k]))
              (take c (drop (k * c) ns))"
    by (simp add: fst_chunkStep)
  also have "\<dots> = foldl ?set (foldl ?set m0 (take (k * c) ns)) (take c (drop (k * c) ns))"
    by (simp only: Suc.IH)
  also have "\<dots> = foldl ?set m0 (take (Suc k * c) ns)"
    by (simp only: t foldl_append)
  finally show ?case .
qed

lemma chunkLoop_map:
  assumes "0 < c"
  shows "fst (chunkLoop b v c ns es w) = uniqueNodesMap ns"
  using totalChunks_covers[OF assms, of "length ns"]
  by (simp add: chunkLoop_def fst_chunk_fold uniqueNodesMap_def)

lemma chunkLoop_empty: "chunkLoop b v c [] es w = ([], w)"
  by (simp add: chunkLoop_def totalChunks_none)


section \<open>A load without node rows\<close>

lemma applyClustering_graph:
  "map handle (nodes (graph (applyClustering clustering w)))
       = map handle (filter (\<lambda>n. degree (graph w) (handle n) \<noteq> 0) (nodes (graph w)))
   \<and> edges (graph (applyClustering clustering w)) = edges (graph w)
   \<and> events (applyClustering clustering w) = events w @ [ClusteringRun, LayoutRun, ProjectionSet]
   \<and> document (applyClustering clustering w) = document w"
proof -
  let ?s = "styleClusters (clustering (graph w)) (graph w)"
  have k: "map handle (nodes ?s) = map handle (nodes (graph w))" "edges ?s = edges (graph w)"
    using styleClusters_keeps by blast+
  have d: "degree ?s = degree (graph w)"
    by (rule ext) (simp add: degree_cong[OF k(2)])
  have "map handle (nodes (pruneIsolated ?s))
          = map handle (filter (\<lambda>n. degree (graph w) (handle n) \<noteq> 0) (nodes (graph w)))"
    using handles_after_filter[OF k(1), of "\<lambda>h. degree (graph w) h \<noteq> 0"]
    by (simp add: pruneIsolated_result d)
  then show ?thesis
    using pruneIsolated_result[of ?s] k(2)
    by (simp add: applyClustering_def)
qed

lemma finishLoad_result:
  "map handle (nodes (graph (finishLoad cl u w)))
       = map handle (filter (\<lambda>n. degree (graph w) (handle n) \<noteq> 0) (nodes (graph w)))
   \<and> edges (graph (finishLoad cl u w)) = edges (graph w)
   \<and> events (finishLoad cl u w)
       = events w @ [FitGraphBounds, ClusteringRun, LayoutRun, ProjectionSet]
   \<and> document (finishLoad cl u w) = createLegend_C (document w) u"
  using applyClustering_graph[of cl "w\<lparr>events := events w @ [FitGraphBounds]\<rparr>"]
  by (simp add: finishLoad_def Let_def)

text \<open>
  Claim C5, as the code has it. With no node row the chunk count is 0 and the loop body
  never runs, so the graph builder is not called. The code after the loop runs all the
  same: the view is fitted, clustering, pruning, the initial layout and the projection
  run once, and an empty legend is rendered. The function does not clear the graph: the
  graph left is the graph found, less its isolated nodes, and it is empty if the graph
  found had no node.
\<close>

theorem empty_node_list_runs_no_chunk:
  "totalChunks (length ([] :: NodeData list)) 100 = 0
   \<and> loadGraphInChunks buildGraph vis cl w [] es = Some (finishLoad cl [] w)
   \<and> events (finishLoad cl [] w)
       = events w @ [FitGraphBounds, ClusteringRun, LayoutRun, ProjectionSet]
   \<and> map handle (nodes (graph (finishLoad cl [] w)))
       = map handle (filter (\<lambda>n. degree (graph w) (handle n) \<noteq> 0) (nodes (graph w)))
   \<and> edges (graph (finishLoad cl [] w)) = edges (graph w)
   \<and> (nodes (graph w) = [] \<longrightarrow> nodes (graph (finishLoad cl [] w)) = [])"
proof -
  have l: "loadGraphInChunks buildGraph vis cl w [] es = Some (finishLoad cl [] w)"
    by (simp add: loadGraphInChunks_def loadGraphInChunks_sized_def chunkLoop_empty
        map_values_def)
  have n: "nodes (graph w) = [] \<longrightarrow> nodes (graph (finishLoad cl [] w)) = []"
    using finishLoad_result[of cl "[]" w] by auto
  show ?thesis
    using l n finishLoad_result[of cl "[]" w] by (simp add: totalChunks_none)
qed

theorem empty_node_list_runs_no_chunk_witness:
  "nodes (graph \<lparr>graph = \<lparr>nodes = [], edges = [], nextHandle = 0\<rparr>, document = [], events = []\<rparr>)
     = ([] :: jsfield gnode list)
   \<and> nodes (graph (finishLoad (\<lambda>g h. None) []
        \<lparr>graph = \<lparr>nodes = [], edges = ([] :: EdgeData gedge list), nextHandle = 0\<rparr>,
          document = [], events = []\<rparr>))
     = ([] :: jsfield gnode list)"
  using empty_node_list_runs_no_chunk[where cl = "\<lambda>g h. None"
      and w = "\<lparr>graph = \<lparr>nodes = ([] :: jsfield gnode list), edges = ([] :: EdgeData gedge list),
                  nextHandle = 0\<rparr>, document = [], events = []\<rparr>"]
  by simp

text \<open>
  Claim C5 as stated fails in two respects. A load with no node rows runs the layout. And
  started on a graph of two nodes joined by an edge, it leaves these two nodes and the
  edge in the graph.
\<close>

theorem empty_load_still_runs_layout:
  "map_option events
     (loadGraphInChunks (modelBuilder False) False (\<lambda>g h. None)
        \<lparr>graph = \<lparr>nodes = [], edges = [], nextHandle = 0\<rparr>, document = [], events = []\<rparr>
        [] [])
     = Some [FitGraphBounds, ClusteringRun, LayoutRun, ProjectionSet]
   \<and> LayoutRun \<in> set [FitGraphBounds, ClusteringRun, LayoutRun, ProjectionSet]
   \<and> map_option (\<lambda>w. (map handle (nodes (graph w)), map (\<lambda>e. (src e, tgt e)) (edges (graph w))))
     (loadGraphInChunks (modelBuilder False) False (\<lambda>g h. None)
        \<lparr>graph = \<lparr>nodes = [\<lparr>handle = 0, tag = Some ''T'', fill = Str ''gray'', nlabels = []\<rparr>,
                            \<lparr>handle = 1, tag = Some ''T'', fill = Str ''gray'', nlabels = []\<rparr>],
                   edges = [\<lparr>src = 0, tgt = 1,
                             etag = \<lparr>source = Some ''a'', target = Some ''b'', edgeType = None\<rparr>,
                             elabels = []\<rparr>],
                   nextHandle = 2\<rparr>,
          document = [], events = []\<rparr>
        [] [])
     = Some ([0, 1], [(0, 1)])"
  by (simp add: loadGraphInChunks_def loadGraphInChunks_sized_def chunkLoop_def totalChunks_def
      finishLoad_def applyClustering_def styleClusters_def clusterKeys_def pruneIsolated_def
      degree_def removeNode_def createLegend_C_def map_values_def Let_def map_filter_simps)

section \<open>Chunked and single construction\<close>












end
